theory Spec2Isabelle
  imports Complex_Main "HOL-Library.Word"
begin

unbundle bit_operations_syntax

section \<open>Data model of posterize.cpp\<close>

text \<open>
  The fixed-width integer types of the source. \<open>size_t\<close> indices and loop counters
  are modelled as \<open>nat\<close>: they index buffers that exist in memory, so neither
  \<open>numPixels * 4\<close> nor any index computed from it wraps. The \<open>size_t\<close>
  variable \<open>nearestDistance\<close> holds \<open>uint64_t\<close> values and is modelled
  with 64 bits. The per-cluster pixel counter is a C++ \<open>int\<close>; it is modelled as
  a 32-bit word, read as two's complement when it is converted to \<open>uint64_t\<close>
  for the division (\<open>scast\<close>). Incrementing it beyond \<open>2 ^ 31 - 1\<close> is
  undefined in C++, so what is proved about the counters and the centroids is stated
  for clusters of fewer than \<open>2 ^ 31\<close> members.
\<close>

type_synonym u8 = "8 word"
type_synonym u64 = "64 word"
type_synonym i32 = "32 word"

text \<open>\<open>struct PaletteValue\<close>: three 8-bit channels.\<close>

record PaletteValue =
  r :: u8
  g :: u8
  b :: u8

text \<open>
  \<open>PaletteValue::luminance\<close>. The source evaluates the expression below in binary32
  arithmetic. \<open>luminance\<close> is the exact value of that expression (the BT.601 luma of
  the colour); the rounded evaluation is not modelled. Every function that calls
  \<open>luminance()\<close> in the source takes the function it calls as the parameter
  \<open>lum\<close>, so that what is proved about it holds for the rounded evaluation as well
  as for the exact one.
\<close>

definition luminance :: "PaletteValue \<Rightarrow> real" where
  "luminance p =
     0.299 * (real (unat (PaletteValue.r p)) / 255.0)
   + 0.587 * (real (unat (PaletteValue.g p)) / 255.0)
   + 0.114 * (real (unat (PaletteValue.b p)) / 255.0)"

text \<open>The local \<open>struct Color\<close> of \<open>posterize\<close>: a centroid with 64-bit channels.\<close>

record Color =
  r :: u64
  g :: u64
  b :: u64

text \<open>
  One 4-byte slot of the working copy \<open>rgba\<close>: \<open>rgbaN\<close> is the byte
  \<open>rgba[i + N]\<close> of the pixel that starts at byte \<open>i\<close>. All loops over the
  working copy advance by 4 bytes, so the copy is a list of such slots.
\<close>

record Pixel =
  rgba0 :: u8
  rgba1 :: u8
  rgba2 :: u8
  rgba3 :: u8

definition numColors :: nat where
  "numColors = 16"

definition maxIterations :: nat where
  "maxIterations = 24"

section \<open>setDarkestColorToBlackAndIndex0\<close>

text \<open>
  The search for the darkest colour (source lines 30 to 40): the state is the pair
  \<open>(darkestLuma, darkestColor)\<close>, starting at \<open>(1.0, 0)\<close>.
\<close>

definition darkestStep ::
  "(PaletteValue \<Rightarrow> real) \<Rightarrow> PaletteValue list \<Rightarrow> nat \<Rightarrow> real \<times> nat \<Rightarrow> real \<times> nat" where
  "darkestStep lum palette i s =
     (let luma = lum (palette ! i)
      in if luma < fst s then (luma, i) else s)"

definition findDarkest :: "(PaletteValue \<Rightarrow> real) \<Rightarrow> PaletteValue list \<Rightarrow> nat" where
  "findDarkest lum palette = snd (fold (darkestStep lum palette) [0..<16] (1, 0))"

text \<open>
  The 256-entry table of source lines 57 to 65: the identity, then four entries
  overwritten in the order of the source. The indices are \<open>size_t\<close> expressions, the
  stored values are narrowed to a byte.
\<close>

definition swapLut :: "nat \<Rightarrow> u8 list" where
  "swapLut darkestColor =
     (let lut0 = map of_nat [0..<256];
          lut1 = lut0[(0 OR 0) := of_nat (push_bit 4 darkestColor OR darkestColor)];
          lut2 = lut1[(0 OR darkestColor) := of_nat (push_bit 4 darkestColor OR 0)];
          lut3 = lut2[(push_bit 4 darkestColor OR 0) := of_nat (0 OR darkestColor)];
          lut4 = lut3[(push_bit 4 darkestColor OR darkestColor) := 0]
      in lut4)"

text \<open>The remapping loop of source lines 68 to 71.\<close>

definition remapPixels :: "u8 list \<Rightarrow> u8 list \<Rightarrow> nat \<Rightarrow> u8 list" where
  "remapPixels lut image4bit numBytes =
     fold (\<lambda>i img. img[i := lut ! unat (img ! i)]) [0..<numBytes] image4bit"

definition setBlack :: "PaletteValue \<Rightarrow> PaletteValue" where
  "setBlack p = p\<lparr>PaletteValue.r := 0, PaletteValue.g := 0, PaletteValue.b := 0\<rparr>"

definition setDarkestColorToBlackAndIndex0 ::
  "(PaletteValue \<Rightarrow> real) \<Rightarrow> PaletteValue list \<Rightarrow> u8 list \<Rightarrow> nat
     \<Rightarrow> PaletteValue list \<times> u8 list" where
  "setDarkestColorToBlackAndIndex0 lum palette image4bit numBytes =
     (let darkestColor = findDarkest lum palette;
          palette1 = palette[darkestColor := setBlack (palette ! darkestColor)]
      in if 0 = darkestColor then (palette1, image4bit)
         else
           let tmp = palette1 ! 0;
               palette2 = palette1[0 := palette1 ! darkestColor];
               palette3 = palette2[darkestColor := tmp]
           in (palette3, remapPixels (swapLut darkestColor) image4bit numBytes))"

section \<open>posterize\<close>

text \<open>
  The working copy of the input with its alpha bytes overwritten by the random cluster
  indices (source lines 83 to 94). The draws of
  \<open>uniform_int_distribution(0, 15)\<close> are a parameter: \<open>draws i\<close> is the draw for
  pixel \<open>i\<close>, a 4-bit value.
\<close>

definition seedClusters :: "(nat \<Rightarrow> 4 word) \<Rightarrow> u8 list \<Rightarrow> nat \<Rightarrow> Pixel list" where
  "seedClusters draws rgbaIn numPixels =
     map (\<lambda>i. \<lparr>rgba0 = rgbaIn ! (4 * i + 0), rgba1 = rgbaIn ! (4 * i + 1),
               rgba2 = rgbaIn ! (4 * i + 2), rgba3 = ucast (draws i)\<rparr>)
       [0..<numPixels]"

text \<open>Source lines 114 to 126: zero the accumulators, then add every pixel to its cluster.\<close>

definition zeroColor :: Color where
  "zeroColor = \<lparr>Color.r = 0, Color.g = 0, Color.b = 0\<rparr>"

definition accumulate :: "Pixel \<Rightarrow> Color list \<times> i32 list \<Rightarrow> Color list \<times> i32 list" where
  "accumulate px s =
     (let centroids = fst s;
          numPixelsInCluster = snd s;
          k = unat (rgba3 px);
          c = centroids ! k
      in (centroids[k := \<lparr>Color.r = Color.r c + ucast (rgba0 px),
                           Color.g = Color.g c + ucast (rgba1 px),
                           Color.b = Color.b c + ucast (rgba2 px)\<rparr>],
          numPixelsInCluster[k := numPixelsInCluster ! k + 1]))"

definition sumClusters :: "Pixel list \<Rightarrow> Color list \<times> i32 list" where
  "sumClusters rgba = fold accumulate rgba (replicate numColors zeroColor, replicate numColors 0)"

text \<open>
  Source lines 127 to 135. In \<open>centroids[i].r /= numPixelsInCluster[i]\<close> the
  \<open>int\<close> count is converted to \<open>uint64_t\<close> and the division is unsigned.
\<close>

definition average :: "Color \<Rightarrow> i32 \<Rightarrow> Color" where
  "average c n =
     (if n \<noteq> 0
      then \<lparr>Color.r = Color.r c div scast n,
            Color.g = Color.g c div scast n,
            Color.b = Color.b c div scast n\<rparr>
      else c)"

definition computeCentroids :: "Pixel list \<Rightarrow> Color list" where
  "computeCentroids rgba =
     (let s = sumClusters rgba
      in map (\<lambda>i. average (fst s ! i) (snd s ! i)) [0..<numColors])"

text \<open>
  Source lines 144 to 147: the channel bytes are promoted and converted to
  \<open>uint64_t\<close>; subtraction, multiplication and addition are modulo \<open>2 ^ 64\<close>.
\<close>

definition distance2 :: "Color \<Rightarrow> Pixel \<Rightarrow> u64" where
  "distance2 c px =
     (let dr = Color.r c - ucast (rgba0 px);
          dg = Color.g c - ucast (rgba1 px);
          db = Color.b c - ucast (rgba2 px)
      in dr * dr + dg * dg + db * db)"

text \<open>Source lines 151 to 160: the state is the pair \<open>(bestK, nearestDistance)\<close>.\<close>

definition nearestStep :: "u64 list \<Rightarrow> nat \<Rightarrow> nat \<times> u64 \<Rightarrow> nat \<times> u64" where
  "nearestStep distance j s =
     (if distance ! j < snd s then (j, distance ! j) else s)"

definition nearestCluster :: "u64 list \<Rightarrow> nat" where
  "nearestCluster distance = fst (fold (nearestStep distance) [1..<numColors] (0, distance ! 0))"

definition bestCluster :: "Color list \<Rightarrow> Pixel \<Rightarrow> nat" where
  "bestCluster centroids px =
     nearestCluster (map (\<lambda>j. distance2 (centroids ! j) px) [0..<numColors])"

text \<open>
  Source lines 138 to 167: every pixel gets its nearest cluster; \<open>didChange\<close> is the
  disjunction of \<open>rgba[i + 3] != bestK\<close> over the pixels.
\<close>

definition assignPixels :: "Color list \<Rightarrow> Pixel list \<Rightarrow> Pixel list \<times> bool" where
  "assignPixels centroids rgba =
     (map (\<lambda>px. px\<lparr>rgba3 := of_nat (bestCluster centroids px)\<rparr>) rgba,
      list_ex (\<lambda>px. unat (rgba3 px) \<noteq> bestCluster centroids px) rgba)"

text \<open>
  The \<open>do ... while\<close> loop of source lines 110 to 170. \<open>kmeans rgba iterations\<close>
  runs the loop from the top of its body and returns the centroids, the working copy,
  \<open>didChange\<close> and \<open>iterations\<close> as they are when the loop is left.
\<close>

function kmeans :: "Pixel list \<Rightarrow> nat \<Rightarrow> Color list \<times> Pixel list \<times> bool \<times> nat" where
  "kmeans rgba iterations =
     (let centroids = computeCentroids rgba;
          rgba' = fst (assignPixels centroids rgba);
          didChange = snd (assignPixels centroids rgba);
          iterations' = iterations + 1
      in if didChange \<and> iterations' < maxIterations
         then kmeans rgba' iterations'
         else (centroids, rgba', didChange, iterations'))"
  by pat_completeness auto
termination
  by (relation "measure (\<lambda>(rgba, iterations). maxIterations - iterations)") auto

declare kmeans.simps [simp del]

text \<open>Source lines 173 to 176.\<close>

definition createPalette :: "Color list \<Rightarrow> PaletteValue list" where
  "createPalette centroids =
     map (\<lambda>i. \<lparr>PaletteValue.r = ucast (Color.r (centroids ! i)),
               PaletteValue.g = ucast (Color.g (centroids ! i)),
               PaletteValue.b = ucast (Color.b (centroids ! i))\<rparr>) [0..<numColors]"

text \<open>
  Source lines 179 to 186. \<open>shiftAmount\<close> is \<open>(~i & 1) * 4\<close> on \<open>size_t\<close>; the
  byte written is narrowed to 8 bits.
\<close>

definition shiftAmount :: "nat \<Rightarrow> nat" where
  "shiftAmount i = unat ((NOT (of_nat i :: u64) AND 1) * 4)"

definition packPixel :: "Pixel list \<Rightarrow> nat \<Rightarrow> u8 list \<Rightarrow> u8 list" where
  "packPixel rgba i image4bit =
     (let colorIdx = rgba3 (rgba ! i);
          byteIdx = i div 2;
          mask = drop_bit (shiftAmount i) (0xf0 :: u8)
      in image4bit[byteIdx := (image4bit ! byteIdx AND mask) OR push_bit (shiftAmount i) colorIdx])"

definition packPixels :: "Pixel list \<Rightarrow> nat \<Rightarrow> u8 list \<Rightarrow> u8 list" where
  "packPixels rgba numPixels image4bit = fold (packPixel rgba) [0..<numPixels] image4bit"

text \<open>Source lines 193 to 198.\<close>

definition copyOutEntry :: "PaletteValue list \<Rightarrow> nat \<Rightarrow> u8 list \<Rightarrow> u8 list" where
  "copyOutEntry palette i palette24bit =
     palette24bit[i * 3 + 0 := PaletteValue.r (palette ! i),
                  i * 3 + 1 := PaletteValue.g (palette ! i),
                  i * 3 + 2 := PaletteValue.b (palette ! i)]"

definition copyOutPalette :: "PaletteValue list \<Rightarrow> u8 list \<Rightarrow> u8 list" where
  "copyOutPalette palette palette24bit = fold (copyOutEntry palette) [0..<numColors] palette24bit"

text \<open>
  \<open>posterize\<close>: the buffers \<open>image4bit\<close> and \<open>palette24bit\<close> are passed with the
  contents they have at the call and returned with the contents they have at the return.
\<close>

definition posterize ::
  "(PaletteValue \<Rightarrow> real) \<Rightarrow> (nat \<Rightarrow> 4 word) \<Rightarrow> u8 list \<Rightarrow> u8 list \<Rightarrow> u8 list \<Rightarrow> nat
     \<Rightarrow> u8 list \<times> u8 list" where
  "posterize lum draws image4bit palette24bit rgbaIn numPixels =
     (let rgba = seedClusters draws rgbaIn numPixels;
          km = kmeans rgba 0;
          palette = createPalette (fst km);
          image1 = packPixels (fst (snd km)) numPixels image4bit;
          n = setDarkestColorToBlackAndIndex0 lum palette image1 (numPixels div 2)
      in (snd n, copyOutPalette (fst n) palette24bit))"

section \<open>applyColorsToPixelBuffer\<close>

definition applyColor :: "u8 list \<Rightarrow> u8 list \<Rightarrow> nat \<Rightarrow> u8 list \<Rightarrow> u8 list" where
  "applyColor image4bit palette24bit i rgba =
     (let byteIdx = i div 2;
          colorIdx = unat (drop_bit (shiftAmount i) (image4bit ! byteIdx) AND (0xf :: u8))
      in rgba[i * 4 + 0 := palette24bit ! (colorIdx * 3 + 0),
              i * 4 + 1 := palette24bit ! (colorIdx * 3 + 1),
              i * 4 + 2 := palette24bit ! (colorIdx * 3 + 2),
              i * 4 + 3 := 0xff])"

definition applyColorsToPixelBuffer :: "u8 list \<Rightarrow> u8 list \<Rightarrow> u8 list \<Rightarrow> nat \<Rightarrow> u8 list" where
  "applyColorsToPixelBuffer rgba image4bit palette24bit numPixels =
     fold (applyColor image4bit palette24bit) [0..<numPixels] rgba"

section \<open>Notions used to state the properties\<close>

text \<open>
  The nibble of pixel \<open>i\<close> in a packed image: the high nibble of byte \<open>i div 2\<close>
  when \<open>i\<close> is even, the low nibble when it is odd.
\<close>

definition nibbleAt :: "u8 list \<Rightarrow> nat \<Rightarrow> nat" where
  "nibbleAt image4bit i =
     unat (if even i then drop_bit 4 (image4bit ! (i div 2)) else image4bit ! (i div 2) AND 0xf)"

text \<open>
  The swap of \<open>0\<close> and \<open>d\<close> on one nibble, and the byte whose two nibbles are the
  swapped nibbles of a byte: what the table is documented to compute.
\<close>

definition swapNibble :: "nat \<Rightarrow> nat \<Rightarrow> nat" where
  "swapNibble d x = (if x = 0 then d else if x = d then 0 else x)"

definition swapByte :: "nat \<Rightarrow> u8 \<Rightarrow> u8" where
  "swapByte d x =
     push_bit 4 (of_nat (swapNibble d (unat (drop_bit 4 x)))) OR of_nat (swapNibble d (unat (x AND 0xf)))"

text \<open>The squared Euclidean distance of a centroid and a pixel, over the integers.\<close>

definition sqDistance :: "Color \<Rightarrow> Pixel \<Rightarrow> int" where
  "sqDistance c px =
     (uint (Color.r c) - uint (rgba0 px))\<^sup>2
   + (uint (Color.g c) - uint (rgba1 px))\<^sup>2
   + (uint (Color.b c) - uint (rgba2 px))\<^sup>2"

text \<open>The colour \<open>(0, 0, 0)\<close>, and entry \<open>i\<close> of a palette laid out as R, G, B bytes.\<close>

definition black :: PaletteValue where
  "black = \<lparr>PaletteValue.r = 0, PaletteValue.g = 0, PaletteValue.b = 0\<rparr>"

definition paletteEntry :: "u8 list \<Rightarrow> nat \<Rightarrow> PaletteValue" where
  "paletteEntry palette24bit i =
     \<lparr>PaletteValue.r = palette24bit ! (i * 3 + 0),
      PaletteValue.g = palette24bit ! (i * 3 + 1),
      PaletteValue.b = palette24bit ! (i * 3 + 2)\<rparr>"

text \<open>
  One run of the body of the \<open>do ... while\<close> loop on a working copy: the working copy
  and \<open>didChange\<close> at the end of the body. \<open>bufferAfter m rgba\<close> is the working
  copy after \<open>m\<close> runs of the body, and \<open>changedIn m rgba\<close> is \<open>didChange\<close> at
  the end of run number \<open>m\<close> (counted from 1).
\<close>

definition lloydIteration :: "Pixel list \<Rightarrow> Pixel list \<times> bool" where
  "lloydIteration rgba = assignPixels (computeCentroids rgba) rgba"

fun bufferAfter :: "nat \<Rightarrow> Pixel list \<Rightarrow> Pixel list" where
  "bufferAfter 0 rgba = rgba"
| "bufferAfter (Suc m) rgba = fst (lloydIteration (bufferAfter m rgba))"

definition changedIn :: "nat \<Rightarrow> Pixel list \<Rightarrow> bool" where
  "changedIn m rgba = snd (lloydIteration (bufferAfter (m - 1) rgba))"

text \<open>
  The pixels of the working copy whose fourth byte is \<open>i\<close> (the members of cluster
  \<open>i\<close>), and the sum of one channel over a list of pixels, over the naturals.
\<close>

definition clusterMembers :: "nat \<Rightarrow> Pixel list \<Rightarrow> Pixel list" where
  "clusterMembers i rgba = filter (\<lambda>px. unat (rgba3 px) = i) rgba"

definition channelSum :: "(Pixel \<Rightarrow> u8) \<Rightarrow> Pixel list \<Rightarrow> nat" where
  "channelSum f pxs = sum_list (map (\<lambda>px. unat (f px)) pxs)"

section \<open>The nibble remap table\<close>

lemma swapLut_nth:
  "i < 256 \<Longrightarrow> swapLut d ! i =
     (if i = (push_bit 4 d OR d) then 0
      else if i = (push_bit 4 d OR 0) then of_nat (0 OR d)
      else if i = (0 OR d) then of_nat (push_bit 4 d OR 0)
      else if i = (0 OR 0) then of_nat (push_bit 4 d OR d)
      else of_nat i)"
  by (simp add: swapLut_def Let_def nth_list_update del: upt_rec_numeral push_bit_of_0 or.right_neutral)

text \<open>
  C1. The table is documented to swap \<open>0\<close> and \<open>darkestColor\<close> in each nibble of
  every byte. For \<open>darkestColor = 3\<close> the byte \<open>0x05\<close> (high nibble \<open>0\<close>, low
  nibble \<open>5\<close>) should map to \<open>0x35\<close>; the table built by the source maps it to
  itself, because only the four bytes with both nibbles in \<open>{0, 3}\<close> are overwritten.
\<close>

theorem swapLut_keeps_mixed_byte:
  "swapLut 3 ! unat (0x05 :: u8) = 0x05 \<and> swapByte 3 0x05 = 0x35"
  by (simp add: swapLut_nth swapByte_def swapNibble_def)

section \<open>The distance computation\<close>

lemma distance_channel:
  fixes c :: u64 and p :: u8
  assumes "unat c \<le> 255"
  shows "uint ((c - ucast p) * (c - ucast p)) = (uint c - uint p)\<^sup>2
       \<and> (uint c - uint p)\<^sup>2 \<le> 65025"
proof -
  have eq: "(c - ucast p) * (c - ucast p) = word_of_int ((uint c - uint p)\<^sup>2)"
    by (simp add: power2_eq_square)
  have "int (unat c) \<le> 255" using assms by linarith
  then have c: "uint c \<le> 255" by (simp only: uint_nat)
  have c0: "0 \<le> uint c" by simp
  have p0: "0 \<le> uint p" by simp
  have "uint p < 2 ^ 8" using uint_bounded[of p] by simp
  then have p: "uint p \<le> 255" by simp
  have "\<bar>uint c - uint p\<bar> \<le> 255" using c p c0 p0 by linarith
  then have le: "(uint c - uint p)\<^sup>2 \<le> 255\<^sup>2"
    by (metis abs_le_square_iff abs_numeral)
  then have lt: "(uint c - uint p)\<^sup>2 < 2 ^ 64" by simp
  have ge: "0 \<le> (uint c - uint p)\<^sup>2" by simp
  have "uint ((c - ucast p) * (c - ucast p)) = (uint c - uint p)\<^sup>2"
    unfolding eq using lt ge by (simp only: uint_word_of_int) (simp add: take_bit_eq_mod)
  with le show ?thesis by simp
qed

lemma distance2_uint:
  assumes "unat (Color.r c) \<le> 255" and "unat (Color.g c) \<le> 255" and "unat (Color.b c) \<le> 255"
  shows "uint (distance2 c px) = sqDistance c px"
proof -
  define dr where "dr = (Color.r c - ucast (rgba0 px)) * (Color.r c - ucast (rgba0 px))"
  define dg where "dg = (Color.g c - ucast (rgba1 px)) * (Color.g c - ucast (rgba1 px))"
  define db where "db = (Color.b c - ucast (rgba2 px)) * (Color.b c - ucast (rgba2 px))"
  note cr = distance_channel [OF assms(1), of "rgba0 px", folded dr_def]
  note cg = distance_channel [OF assms(2), of "rgba1 px", folded dg_def]
  note cb = distance_channel [OF assms(3), of "rgba2 px", folded db_def]
  have "uint (dr + dg + db) = (uint dr + uint dg + uint db) mod 2 ^ 64"
    by (simp add: uint_word_ariths mod_simps)
  also have "\<dots> = uint dr + uint dg + uint db"
    using cr cg cb by simp
  finally have "uint (dr + dg + db) = sqDistance c px"
    using cr cg cb by (simp add: sqDistance_def)
  then show ?thesis
    by (simp add: distance2_def Let_def dr_def dg_def db_def)
qed

text \<open>
  C4. When every channel of the centroid is at most 255, the value computed with
  wrapping unsigned 64-bit subtraction, multiplication and addition is the squared
  Euclidean distance of the centroid and the pixel.
\<close>

theorem distance2_exact:
  assumes "unat (Color.r c) \<le> 255" and "unat (Color.g c) \<le> 255" and "unat (Color.b c) \<le> 255"
  shows "uint (distance2 c px) = sqDistance c px"
  using assms by (rule distance2_uint)

theorem distance2_exact_witness:
  "uint (distance2 \<lparr>Color.r = 10, Color.g = 200, Color.b = 0\<rparr>
           \<lparr>rgba0 = 250, rgba1 = 100, rgba2 = 7, rgba3 = 0\<rparr>) = 67649"
  using distance2_exact [of "\<lparr>Color.r = 10, Color.g = 200, Color.b = 0\<rparr>"
      "\<lparr>rgba0 = 250, rgba1 = 100, rgba2 = 7, rgba3 = 0\<rparr>"]
  by (simp add: sqDistance_def)

section \<open>applyColorsToPixelBuffer\<close>

lemma shiftAmount_eq: "shiftAmount i = (if even i then 4 else 0)"
proof -
  have "NOT (of_nat i :: u64) AND 1 = (if even i then 1 else 0)"
    by (simp add: and_one_eq mod_2_eq_odd)
  then show ?thesis
    by (simp add: shiftAmount_def)
qed

lemma high_nibble_masked: "drop_bit 4 (x::u8) AND 15 = drop_bit 4 x"
proof -
  have "(15 :: u8) = mask 4" by (simp add: mask_eq_exp_minus_1)
  moreover have "drop_bit 4 x AND mask 4 = drop_bit 4 x"
    apply (rule bit_word_eqI)
    apply (auto simp: bit_simps dest: bit_imp_le_length)
    done
  ultimately show ?thesis by simp
qed

lemma colorIdx_eq:
  "unat (drop_bit (shiftAmount i) (image4bit ! (i div 2)) AND (0xf :: u8)) = nibbleAt image4bit i"
  by (simp add: nibbleAt_def shiftAmount_eq high_nibble_masked)

lemma applyColor_length: "length (applyColor image4bit palette24bit i rgba) = length rgba"
  by (simp add: applyColor_def Let_def)

lemma applyColors_Suc:
  "applyColorsToPixelBuffer rgba image4bit palette24bit (Suc n) =
     applyColor image4bit palette24bit n (applyColorsToPixelBuffer rgba image4bit palette24bit n)"
  by (simp add: applyColorsToPixelBuffer_def)

lemma applyColors_length:
  "length (applyColorsToPixelBuffer rgba image4bit palette24bit n) = length rgba"
  by (induction n) (simp_all add: applyColors_Suc applyColor_length applyColorsToPixelBuffer_def)

lemma applyColor_nth:
  assumes "i * 4 + 3 < length rgba"
  shows "applyColor image4bit palette24bit i rgba ! j =
     (if j = i * 4 + 3 then 0xff
      else if j = i * 4 + 2 then palette24bit ! (nibbleAt image4bit i * 3 + 2)
      else if j = i * 4 + 1 then palette24bit ! (nibbleAt image4bit i * 3 + 1)
      else if j = i * 4 then palette24bit ! (nibbleAt image4bit i * 3)
      else rgba ! j)"
  using assms by (simp add: applyColor_def Let_def colorIdx_eq nth_list_update)

lemma applyColors_written:
  assumes "n * 4 \<le> length rgba" and "i < n"
  shows "applyColorsToPixelBuffer rgba image4bit palette24bit n ! (i * 4 + 3) = 0xff
       \<and> applyColorsToPixelBuffer rgba image4bit palette24bit n ! (i * 4 + 2)
           = palette24bit ! (nibbleAt image4bit i * 3 + 2)
       \<and> applyColorsToPixelBuffer rgba image4bit palette24bit n ! (i * 4 + 1)
           = palette24bit ! (nibbleAt image4bit i * 3 + 1)
       \<and> applyColorsToPixelBuffer rgba image4bit palette24bit n ! (i * 4)
           = palette24bit ! (nibbleAt image4bit i * 3)"
  using assms
proof (induction n)
  case 0
  then show ?case by simp
next
  case (Suc n)
  let ?prev = "applyColorsToPixelBuffer rgba image4bit palette24bit n"
  have len: "n * 4 + 3 < length ?prev"
    using Suc.prems by (simp add: applyColors_length)
  show ?case
  proof (cases "i = n")
    case True
    then show ?thesis by (simp add: applyColors_Suc applyColor_nth [OF len])
  next
    case False
    with Suc.prems have "i < n" by simp
    with Suc.IH Suc.prems show ?thesis
      by (simp add: applyColors_Suc applyColor_nth [OF len])
  qed
qed

lemma applyColors_untouched:
  assumes "n * 4 \<le> length rgba" and "n * 4 \<le> j"
  shows "applyColorsToPixelBuffer rgba image4bit palette24bit n ! j = rgba ! j"
  using assms
proof (induction n)
  case 0
  then show ?case by (simp add: applyColorsToPixelBuffer_def)
next
  case (Suc n)
  let ?prev = "applyColorsToPixelBuffer rgba image4bit palette24bit n"
  have len: "n * 4 + 3 < length ?prev"
    using Suc.prems by (simp add: applyColors_length)
  from Suc show ?case
    by (simp add: applyColors_Suc applyColor_nth [OF len])
qed

text \<open>
  C8. With an output buffer of at least \<open>4 * numPixels\<close> bytes, a packed image of at
  least \<open>\<lceil>numPixels / 2\<rceil>\<close> bytes and a palette of at least 48 bytes,
  \<open>applyColorsToPixelBuffer\<close> writes, for every pixel \<open>i < numPixels\<close>, the three
  bytes of the palette entry selected by the nibble of pixel \<open>i\<close> to bytes
  \<open>4 * i\<close>, \<open>4 * i + 1\<close> and \<open>4 * i + 2\<close> and \<open>0xff\<close> to byte
  \<open>4 * i + 3\<close>; the buffer keeps its length and every byte from \<open>4 * numPixels\<close>
  on keeps its value.
\<close>

theorem applyColorsToPixelBuffer_correct:
  assumes "numPixels * 4 \<le> length rgba"
    and "(numPixels + 1) div 2 \<le> length image4bit"
    and "48 \<le> length palette24bit"
  shows "length (applyColorsToPixelBuffer rgba image4bit palette24bit numPixels) = length rgba
    \<and> (\<forall>i<numPixels.
          applyColorsToPixelBuffer rgba image4bit palette24bit numPixels ! (i * 4 + 0)
            = palette24bit ! (nibbleAt image4bit i * 3 + 0)
        \<and> applyColorsToPixelBuffer rgba image4bit palette24bit numPixels ! (i * 4 + 1)
            = palette24bit ! (nibbleAt image4bit i * 3 + 1)
        \<and> applyColorsToPixelBuffer rgba image4bit palette24bit numPixels ! (i * 4 + 2)
            = palette24bit ! (nibbleAt image4bit i * 3 + 2)
        \<and> applyColorsToPixelBuffer rgba image4bit palette24bit numPixels ! (i * 4 + 3) = 0xff)
    \<and> (\<forall>j. numPixels * 4 \<le> j \<longrightarrow> j < length rgba \<longrightarrow>
          applyColorsToPixelBuffer rgba image4bit palette24bit numPixels ! j = rgba ! j)"
  using applyColors_written [OF assms(1)] applyColors_untouched [OF assms(1)]
  by (simp add: applyColors_length)

theorem applyColorsToPixelBuffer_correct_witness:
  "length (applyColorsToPixelBuffer [9, 9, 9, 9, 9, 9, 9, 9, 9] [0x12] (replicate 48 7) 2) = 9
   \<and> applyColorsToPixelBuffer [9, 9, 9, 9, 9, 9, 9, 9, 9] [0x12] (replicate 48 7) 2 ! 7 = 0xff
   \<and> applyColorsToPixelBuffer [9, 9, 9, 9, 9, 9, 9, 9, 9] [0x12] (replicate 48 7) 2 ! 8 = 9"
proof -
  let ?rgba = "[9, 9, 9, 9, 9, 9, 9, 9, 9] :: u8 list"
  let ?img = "[0x12] :: u8 list"
  let ?pal = "replicate 48 7 :: u8 list"
  have h1: "2 * 4 \<le> length ?rgba" by simp
  have h2: "(2 + 1) div 2 \<le> length ?img" by simp
  have h3: "48 \<le> length ?pal" by simp
  note t = applyColorsToPixelBuffer_correct [OF h1 h2 h3]
  from t have "length (applyColorsToPixelBuffer ?rgba ?img ?pal 2) = 9" by simp
  moreover from t have "applyColorsToPixelBuffer ?rgba ?img ?pal 2 ! (1 * 4 + 3) = 0xff"
    by (meson one_less_numeral_iff semiring_norm(76))
  moreover from t have "applyColorsToPixelBuffer ?rgba ?img ?pal 2 ! 8 = ?rgba ! 8"
    by simp
  ultimately show ?thesis by simp
qed

section \<open>The black-at-zero normalizer and the palette written by posterize\<close>

lemma setBlack_black [simp]: "setBlack p = black"
  by (simp add: setBlack_def black_def)

lemma luminance_black [simp]: "luminance black = 0"
  by (simp add: luminance_def black_def)

lemma luminance_nonneg: "0 \<le> luminance p"
  unfolding luminance_def
  by (intro add_nonneg_nonneg mult_nonneg_nonneg divide_nonneg_nonneg)
     (simp_all del: of_nat_unat)

lemma darkest_fold_mem:
  "snd (fold (darkestStep lum palette) xs s) \<in> insert (snd s) (set xs)"
proof (induction xs arbitrary: s)
  case Nil
  then show ?case by simp
next
  case (Cons x xs)
  have "snd (darkestStep lum palette x s) \<in> {snd s, x}"
    by (simp add: darkestStep_def Let_def)
  with Cons [of "darkestStep lum palette x s"] show ?case by auto
qed

lemma findDarkest_less: "findDarkest lum palette < 16"
  using darkest_fold_mem [of lum palette "[0..<16]" "(1, 0)"]
  by (auto simp add: findDarkest_def simp del: upt_rec_numeral)

lemma darkest_fold_stable:
  "\<forall>i\<in>set xs. \<not> lum (palette ! i) < fst s \<Longrightarrow> fold (darkestStep lum palette) xs s = s"
  by (induction xs) (simp_all add: darkestStep_def Let_def)

lemma upt16: "[0..<16] = 0 # [1..<16]"
  by (simp add: upt_conv_Cons del: upt_rec_numeral)

lemma findDarkest_first_minimal:
  assumes "\<forall>i<16. \<not> lum (palette ! i) < lum (palette ! 0)"
  shows "findDarkest lum palette = 0"
proof -
  let ?s = "darkestStep lum palette 0 (1, 0)"
  have s: "snd ?s = 0" "fst ?s \<le> lum (palette ! 0)"
    by (simp_all add: darkestStep_def Let_def)
  have "\<forall>i\<in>set [1..<16]. \<not> lum (palette ! i) < fst ?s"
    using assms s(2) by (auto simp del: upt_rec_numeral)
  then have "fold (darkestStep lum palette) [1..<16] ?s = ?s"
    by (rule darkest_fold_stable)
  then show ?thesis
    by (simp add: findDarkest_def upt16 s del: upt_rec_numeral)
qed

lemma normalizer_palette0:
  assumes "length palette = 16"
  shows "fst (setDarkestColorToBlackAndIndex0 lum palette image4bit numBytes) ! 0 = black"
  using assms findDarkest_less [of lum palette]
  by (simp add: setDarkestColorToBlackAndIndex0_def Let_def nth_list_update)

lemma copyOutEntry_append:
  assumes "length xs = i * 3" and "3 \<le> length zs"
  shows "copyOutEntry palette i (xs @ zs) =
     xs @ [PaletteValue.r (palette ! i), PaletteValue.g (palette ! i), PaletteValue.b (palette ! i)]
        @ drop 3 zs"
proof -
  from assms(2) obtain z0 z1 z2 rest where zs: "zs = z0 # z1 # z2 # rest"
    by (cases zs; cases "tl zs"; cases "tl (tl zs)") auto
  show ?thesis
    using assms(1) by (simp add: copyOutEntry_def zs list_update_append)
qed

lemma copyOut_fold:
  assumes "n * 3 \<le> length palette24bit"
  shows "fold (copyOutEntry palette) [0..<n] palette24bit =
     concat (map (\<lambda>i. [PaletteValue.r (palette ! i), PaletteValue.g (palette ! i),
                        PaletteValue.b (palette ! i)]) [0..<n])
       @ drop (n * 3) palette24bit"
  using assms
proof (induction n)
  case 0
  then show ?case by simp
next
  case (Suc n)
  let ?f = "\<lambda>i. [PaletteValue.r (palette ! i), PaletteValue.g (palette ! i), PaletteValue.b (palette ! i)]"
  have len: "length (concat (map ?f [0..<n])) = n * 3"
    by (induction n) simp_all
  have rest: "3 \<le> length (drop (n * 3) palette24bit)"
    using Suc.prems by simp
  have "fold (copyOutEntry palette) [0..<Suc n] palette24bit =
      copyOutEntry palette n (concat (map ?f [0..<n]) @ drop (n * 3) palette24bit)"
    using Suc by simp
  also have "\<dots> = concat (map ?f [0..<n]) @ ?f n @ drop 3 (drop (n * 3) palette24bit)"
    by (rule copyOutEntry_append [OF len rest])
  finally show ?case by (simp add: add.commute)
qed

lemma copyOutPalette_eq:
  assumes "48 \<le> length palette24bit"
  shows "copyOutPalette palette palette24bit =
     concat (map (\<lambda>i. [PaletteValue.r (palette ! i), PaletteValue.g (palette ! i),
                        PaletteValue.b (palette ! i)]) [0..<16])
       @ drop 48 palette24bit"
  using copyOut_fold [of 16 palette24bit palette] assms
  by (simp add: copyOutPalette_def numColors_def del: upt_rec_numeral)

lemma copyOutPalette_entry0:
  assumes "48 \<le> length palette24bit"
  shows "copyOutPalette palette palette24bit ! 0 = PaletteValue.r (palette ! 0)
       \<and> copyOutPalette palette palette24bit ! 1 = PaletteValue.g (palette ! 0)
       \<and> copyOutPalette palette palette24bit ! 2 = PaletteValue.b (palette ! 0)"
  by (simp add: copyOutPalette_eq [OF assms] upt16 del: upt_rec_numeral)

lemma createPalette_length [simp]: "length (createPalette centroids) = 16"
  by (simp add: createPalette_def numColors_def del: upt_rec_numeral)

text \<open>
  C3. Whatever the input, the random draws and the way the luminance is evaluated, when
  \<open>posterize\<close> returns (with \<open>palette24bit\<close> a buffer of at least 48 bytes) bytes 0,
  1 and 2 of \<open>palette24bit\<close> are 0, and none of the 16 palette entries has a BT.601
  luma strictly below that of entry 0.
\<close>

theorem posterize_entry0_black:
  assumes "48 \<le> length palette24bit"
  shows "snd (posterize lum draws image4bit palette24bit rgbaIn numPixels) ! 0 = 0
       \<and> snd (posterize lum draws image4bit palette24bit rgbaIn numPixels) ! 1 = 0
       \<and> snd (posterize lum draws image4bit palette24bit rgbaIn numPixels) ! 2 = 0
       \<and> (\<forall>j<16. \<not> luminance (paletteEntry (snd (posterize lum draws image4bit palette24bit rgbaIn numPixels)) j)
                   < luminance (paletteEntry (snd (posterize lum draws image4bit palette24bit rgbaIn numPixels)) 0))"
proof -
  define out where "out = snd (posterize lum draws image4bit palette24bit rgbaIn numPixels)"
  define km where "km = kmeans (seedClusters draws rgbaIn numPixels) 0"
  define n where "n = setDarkestColorToBlackAndIndex0 lum (createPalette (fst km))
      (packPixels (fst (snd km)) numPixels image4bit) (numPixels div 2)"
  have out: "out = copyOutPalette (fst n) palette24bit"
    by (simp add: out_def posterize_def Let_def n_def km_def)
  have "fst n ! 0 = black"
    unfolding n_def by (rule normalizer_palette0) simp
  with copyOutPalette_entry0 [OF assms, of "fst n"]
  have b: "out ! 0 = 0" "out ! 1 = 0" "out ! 2 = 0"
    by (simp_all add: out black_def)
  then have "paletteEntry out 0 = black"
    by (simp add: paletteEntry_def black_def numeral_2_eq_2)
  then have "\<forall>j<16. \<not> luminance (paletteEntry out j) < luminance (paletteEntry out 0)"
    using luminance_nonneg by (simp add: not_less)
  with b show ?thesis by (simp add: out_def)
qed

theorem posterize_entry0_black_witness:
  "snd (posterize luminance (\<lambda>i. 0) [0] (replicate 48 7) [255, 255, 255, 0] 1) ! 0 = 0
   \<and> snd (posterize luminance (\<lambda>i. 0) [0] (replicate 48 7) [255, 255, 255, 0] 1) ! 1 = 0
   \<and> snd (posterize luminance (\<lambda>i. 0) [0] (replicate 48 7) [255, 255, 255, 0] 1) ! 2 = 0"
proof -
  have h: "48 \<le> length (replicate 48 (7 :: u8))" by simp
  from posterize_entry0_black [OF h, of luminance "\<lambda>i. 0" "[0]" "[255, 255, 255, 0]" 1]
  show ?thesis by blast
qed

text \<open>
  C9. On a palette of 16 entries whose entry 0 is \<open>(0, 0, 0)\<close>, the normalizer returns
  the palette and the packed image unchanged. The luminance evaluation \<open>lum\<close> is only
  required to give black a value below the initial \<open>darkestLuma = 1\<close> and no colour a
  value below that of black, as binary32 evaluation of the BT.601 formula does.
\<close>

theorem normalizer_noop:
  assumes "length palette = 16"
    and "palette ! 0 = black"
    and "lum black < 1"
    and "\<forall>p. lum black \<le> lum p"
  shows "setDarkestColorToBlackAndIndex0 lum palette image4bit numBytes = (palette, image4bit)"
proof -
  have "\<forall>i<16. \<not> lum (palette ! i) < lum (palette ! 0)"
    using assms(2,4) by (simp add: not_less)
  then have d: "findDarkest lum palette = 0"
    by (rule findDarkest_first_minimal)
  have "palette[0 := black] = palette"
    using assms(2) by (metis list_update_id)
  then show ?thesis
    by (simp add: setDarkestColorToBlackAndIndex0_def Let_def d)
qed

theorem normalizer_noop_witness:
  "setDarkestColorToBlackAndIndex0 luminance
     (black # replicate 15 \<lparr>PaletteValue.r = 255, PaletteValue.g = 255, PaletteValue.b = 255\<rparr>)
     [0x01, 0x10] 2
   = (black # replicate 15 \<lparr>PaletteValue.r = 255, PaletteValue.g = 255, PaletteValue.b = 255\<rparr>,
      [0x01, 0x10])"
proof -
  let ?p = "black # replicate 15 \<lparr>PaletteValue.r = 255, PaletteValue.g = 255, PaletteValue.b = 255\<rparr>"
  have h1: "length ?p = 16" by simp
  have h2: "?p ! 0 = black" by simp
  have h3: "luminance black < 1" by simp
  have h4: "\<forall>p. luminance black \<le> luminance p" by (simp add: luminance_nonneg)
  show ?thesis by (rule normalizer_noop [OF h1 h2 h3 h4])
qed

lemma computeCentroids_Nil: "computeCentroids [] = map (\<lambda>i. zeroColor) [0..<16]"
  by (simp add: computeCentroids_def sumClusters_def numColors_def average_def Let_def
      del: upt_rec_numeral)

lemma kmeans_Nil: "kmeans [] 0 = (map (\<lambda>i. zeroColor) [0..<16], [], False, 1)"
  by (subst kmeans.simps) (simp add: computeCentroids_Nil assignPixels_def Let_def del: upt_rec_numeral)

lemma createPalette_zero: "createPalette (map (\<lambda>i. zeroColor) [0..<16]) = map (\<lambda>i. black) [0..<16]"
  by (simp add: createPalette_def numColors_def zeroColor_def black_def del: upt_rec_numeral)

lemma concat_black: "concat (map (\<lambda>i. [0, 0, 0]) xs) = replicate (length xs * 3) (0 :: u8)"
  by (induction xs) (simp_all add: numeral_3_eq_3)

text \<open>
  C10. With \<open>numPixels = 0\<close>, \<open>posterize\<close> returns \<open>image4bit\<close> as it was passed
  (no byte of it is written) and \<open>palette24bit\<close> with its first 48 bytes set to 0 (16
  black entries), the bytes after them unchanged.
\<close>

theorem posterize_zero_pixels:
  assumes "48 \<le> length palette24bit"
  shows "posterize lum draws image4bit palette24bit rgbaIn 0
       = (image4bit, replicate 48 0 @ drop 48 palette24bit)"
proof -
  let ?palette = "map (\<lambda>i. black) [0..<16]"
  have "\<forall>i<16. \<not> lum (?palette ! i) < lum (?palette ! 0)"
    by (simp del: upt_rec_numeral)
  then have d: "findDarkest lum ?palette = 0"
    by (rule findDarkest_first_minimal)
  have "?palette[0 := black] = ?palette"
    by (metis (no_types, lifting) list_update_id nth_map_upt add_0 diff_zero zero_less_numeral)
  then have n: "setDarkestColorToBlackAndIndex0 lum ?palette image4bit 0 = (?palette, image4bit)"
    by (simp add: setDarkestColorToBlackAndIndex0_def Let_def d del: upt_rec_numeral)
  have "map (\<lambda>i. [PaletteValue.r (?palette ! i), PaletteValue.g (?palette ! i),
                   PaletteValue.b (?palette ! i)]) [0..<16]
      = map (\<lambda>i. [0, 0, 0]) [0..<16]"
    by (rule map_cong [OF refl]) (simp add: black_def del: upt_rec_numeral)
  then have "concat (map (\<lambda>i. [PaletteValue.r (?palette ! i), PaletteValue.g (?palette ! i),
                   PaletteValue.b (?palette ! i)]) [0..<16]) = replicate (length [0..<16] * 3) 0"
    by (simp only: concat_black)
  then have c: "copyOutPalette ?palette palette24bit = replicate 48 0 @ drop 48 palette24bit"
    by (simp only: copyOutPalette_eq [OF assms] length_upt) simp
  show ?thesis
    by (simp add: posterize_def Let_def seedClusters_def kmeans_Nil createPalette_zero
        packPixels_def n c del: upt_rec_numeral)
qed

theorem posterize_zero_pixels_witness:
  "posterize luminance (\<lambda>i. 3) [0xab] (replicate 50 7) [] 0
     = ([0xab], replicate 48 0 @ replicate 2 7)"
proof -
  have h: "48 \<le> length (replicate 50 (7 :: u8))" by simp
  from posterize_zero_pixels [OF h, of luminance "\<lambda>i. 3" "[0xab]" "[]"]
  show ?thesis by simp
qed

section \<open>The refinement loop\<close>

lemma kmeans_unfold:
  "kmeans rgba it =
     (if snd (lloydIteration rgba) \<and> it + 1 < 24
      then kmeans (fst (lloydIteration rgba)) (it + 1)
      else (computeCentroids rgba, fst (lloydIteration rgba), snd (lloydIteration rgba), it + 1))"
  by (subst kmeans.simps) (simp add: Let_def lloydIteration_def maxIterations_def)

lemma bufferAfter_shift:
  "bufferAfter m (fst (lloydIteration rgba)) = bufferAfter (Suc m) rgba"
  by (induction m) simp_all

lemma changedIn_shift:
  "1 \<le> m \<Longrightarrow> changedIn m (fst (lloydIteration rgba)) = changedIn (Suc m) rgba"
  by (cases m) (simp_all add: changedIn_def bufferAfter_shift del: bufferAfter.simps)

lemma kmeans_from:
  "it + d = 23 \<Longrightarrow>
   \<exists>centroids out didChange iterations.
     kmeans rgba it = (centroids, out, didChange, iterations)
     \<and> it < iterations \<and> iterations \<le> 24
     \<and> (\<not> didChange \<or> iterations = 24)
     \<and> centroids = computeCentroids (bufferAfter (iterations - it - 1) rgba)
     \<and> out = bufferAfter (iterations - it) rgba
     \<and> didChange = changedIn (iterations - it) rgba
     \<and> (\<forall>m. 1 \<le> m \<and> m < iterations - it \<longrightarrow> changedIn m rgba)"
proof (induction d arbitrary: rgba it)
  case 0
  then have it: "it = 23" by simp
  show ?case
    by (subst kmeans_unfold) (simp add: it changedIn_def)
next
  case (Suc d)
  then have it: "it + 1 < 24" by simp
  show ?case
  proof (cases "snd (lloydIteration rgba)")
    case False
    then show ?thesis
      using it by (subst kmeans_unfold) (auto simp add: changedIn_def)
  next
    case True
    let ?rgba' = "fst (lloydIteration rgba)"
    from Suc.prems have "(it + 1) + d = 23" by simp
    from Suc.IH [OF this, of ?rgba']
    obtain centroids out didChange iterations where
      k: "kmeans ?rgba' (it + 1) = (centroids, out, didChange, iterations)"
      and b: "it + 1 < iterations" "iterations \<le> 24" "\<not> didChange \<or> iterations = 24"
      and c: "centroids = computeCentroids (bufferAfter (iterations - (it + 1) - 1) ?rgba')"
      and o: "out = bufferAfter (iterations - (it + 1)) ?rgba'"
      and ch: "didChange = changedIn (iterations - (it + 1)) ?rgba'"
      and e: "\<forall>m. 1 \<le> m \<and> m < iterations - (it + 1) \<longrightarrow> changedIn m ?rgba'"
      by blast
    have s1: "Suc (iterations - (it + 1)) = iterations - it" using b(1) by simp
    have s2: "Suc (iterations - (it + 1) - 1) = iterations - it - 1" using b(1) by simp
    have k': "kmeans rgba it = (centroids, out, didChange, iterations)"
      using True it k by (subst kmeans_unfold) simp
    have c': "centroids = computeCentroids (bufferAfter (iterations - it - 1) rgba)"
      using c by (simp only: bufferAfter_shift s2)
    have o': "out = bufferAfter (iterations - it) rgba"
      using o by (simp only: bufferAfter_shift s1)
    have ch': "didChange = changedIn (iterations - it) rgba"
    proof -
      have "1 \<le> iterations - (it + 1)" using b(1) by simp
      from changedIn_shift [OF this, of rgba]
      have "changedIn (iterations - (it + 1)) ?rgba' = changedIn (Suc (iterations - (it + 1))) rgba" .
      with ch show ?thesis by (simp only: s1)
    qed
    have e': "\<forall>m. 1 \<le> m \<and> m < iterations - it \<longrightarrow> changedIn m rgba"
    proof (intro allI impI)
      fix m assume m: "1 \<le> m \<and> m < iterations - it"
      show "changedIn m rgba"
      proof (cases "m = 1")
        case True
        then show ?thesis using \<open>snd (lloydIteration rgba)\<close> by (simp add: changedIn_def)
      next
        case False
        with m have m1: "1 \<le> m - 1" and m2: "m - 1 < iterations - (it + 1)" by auto
        from e m1 m2 have "changedIn (m - 1) ?rgba'" by blast
        then have "changedIn (Suc (m - 1)) rgba"
          by (simp only: changedIn_shift [OF m1, of rgba])
        moreover have "Suc (m - 1) = m" using m by simp
        ultimately show ?thesis by simp
      qed
    qed
    from k' b c' o' ch' e' show ?thesis by auto
  qed
qed

text \<open>
  C5. Started with \<open>iterations = 0\<close>, the loop returns, and it is left with
  \<open>1 \<le> iterations \<le> 24\<close>. When it is left, the run of the body just finished
  changed no assignment or \<open>iterations\<close> is 24, and every earlier run of the body did
  change an assignment: the loop is left after the first run that changes nothing, or
  after run 24. The centroids it leaves are those averaged in its last run.
\<close>

theorem kmeans_iterations:
  "\<exists>centroids out didChange iterations.
     kmeans rgba 0 = (centroids, out, didChange, iterations)
     \<and> 1 \<le> iterations \<and> iterations \<le> 24
     \<and> (\<not> didChange \<or> iterations = 24)
     \<and> centroids = computeCentroids (bufferAfter (iterations - 1) rgba)
     \<and> out = bufferAfter iterations rgba
     \<and> didChange = changedIn iterations rgba
     \<and> (\<forall>m. 1 \<le> m \<and> m < iterations \<longrightarrow> changedIn m rgba)"
  using kmeans_from [of 0 23 rgba] by (auto simp del: bufferAfter.simps)

text \<open>
  A run of the loop on one black pixel first drawn into cluster 5: the first pass moves
  it to cluster 0, the second changes nothing.
\<close>

lemma nearest_fold_zero: "snd s = 0 \<Longrightarrow> fold (nearestStep d) xs s = s"
  by (induction xs) (simp_all add: nearestStep_def)

lemma bestCluster_zero:
  assumes "distance2 (centroids ! 0) px = 0"
  shows "bestCluster centroids px = 0"
proof -
  let ?d = "map (\<lambda>j. distance2 (centroids ! j) px) [0..<numColors]"
  have "?d ! 0 = 0"
    using assms by (simp add: numColors_def del: upt_rec_numeral)
  then have "fold (nearestStep ?d) [1..<numColors] (0, ?d ! 0) = (0, ?d ! 0)"
    by (intro nearest_fold_zero) simp
  then show ?thesis
    by (simp only: bestCluster_def nearestCluster_def fst_conv)
qed

lemma black5_centroids:
  "computeCentroids [\<lparr>rgba0 = 0, rgba1 = 0, rgba2 = 0, rgba3 = 5\<rparr>] = replicate 16 zeroColor"
  by code_simp

lemma black0_centroids:
  "computeCentroids [\<lparr>rgba0 = 0, rgba1 = 0, rgba2 = 0, rgba3 = 0\<rparr>] = replicate 16 zeroColor"
  by code_simp

lemma black_best:
  "bestCluster (replicate 16 zeroColor) \<lparr>rgba0 = 0, rgba1 = 0, rgba2 = 0, rgba3 = k\<rparr> = 0"
  by (rule bestCluster_zero) (simp add: distance2_def zeroColor_def)

lemma black5_iteration:
  "lloydIteration [\<lparr>rgba0 = 0, rgba1 = 0, rgba2 = 0, rgba3 = 5\<rparr>]
     = ([\<lparr>rgba0 = 0, rgba1 = 0, rgba2 = 0, rgba3 = 0\<rparr>], True)"
  by (simp add: lloydIteration_def black5_centroids assignPixels_def black_best)

lemma black0_iteration:
  "lloydIteration [\<lparr>rgba0 = 0, rgba1 = 0, rgba2 = 0, rgba3 = 0\<rparr>]
     = ([\<lparr>rgba0 = 0, rgba1 = 0, rgba2 = 0, rgba3 = 0\<rparr>], False)"
  by (simp add: lloydIteration_def black0_centroids assignPixels_def black_best)

lemma black5_kmeans:
  "kmeans [\<lparr>rgba0 = 0, rgba1 = 0, rgba2 = 0, rgba3 = 5\<rparr>] 0
     = (replicate 16 zeroColor, [\<lparr>rgba0 = 0, rgba1 = 0, rgba2 = 0, rgba3 = 0\<rparr>], False, 2)"
  by (subst kmeans_unfold, simp add: black5_iteration, subst kmeans_unfold)
     (simp add: black0_iteration black0_centroids)

theorem kmeans_iterations_witness:
  "kmeans [\<lparr>rgba0 = 0, rgba1 = 0, rgba2 = 0, rgba3 = 5\<rparr>] 0
     = (replicate 16 zeroColor, [\<lparr>rgba0 = 0, rgba1 = 0, rgba2 = 0, rgba3 = 0\<rparr>], False, 2)
   \<and> changedIn 1 [\<lparr>rgba0 = 0, rgba1 = 0, rgba2 = 0, rgba3 = 5\<rparr>]
   \<and> \<not> changedIn 2 [\<lparr>rgba0 = 0, rgba1 = 0, rgba2 = 0, rgba3 = 5\<rparr>]"
proof -
  let ?rgba = "[\<lparr>rgba0 = 0, rgba1 = 0, rgba2 = 0, rgba3 = 5\<rparr>]"
  from kmeans_iterations [of ?rgba] obtain centroids out didChange iterations where
    k: "kmeans ?rgba 0 = (centroids, out, didChange, iterations)"
    and d: "didChange = changedIn iterations ?rgba"
    and e: "\<forall>m. 1 \<le> m \<and> m < iterations \<longrightarrow> changedIn m ?rgba"
    by blast
  from k have i: "iterations = 2" and c: "\<not> didChange" by (simp_all add: black5_kmeans)
  from e i have "changedIn 1 ?rgba" by simp
  moreover from d i c have "\<not> changedIn 2 ?rgba" by simp
  ultimately show ?thesis by (simp add: black5_kmeans)
qed

section \<open>Centroids\<close>

lemma scast_count:
  assumes "n < 2 ^ 31"
  shows "(scast (of_nat n :: i32) :: u64) = of_nat n"
proof -
  have "signed_take_bit 31 (int n) = int n"
    using assms by (intro signed_take_bit_int_eq_self) simp_all
  then show ?thesis
    by (simp add: signed_of_nat)
qed

lemma count_unat:
  assumes "n < 2 ^ 31"
  shows "unat (of_nat n :: i32) = n"
  using assms by (simp add: unat_of_nat)

lemma div_of_nat:
  assumes "S < 2 ^ 64" "n < 2 ^ 64"
  shows "(of_nat S :: u64) div of_nat n = of_nat (S div n)"
  using assms by (simp add: word_arith_nat_div unat_of_nat)

lemma narrow:
  assumes "unat (w :: u64) \<le> 255"
  shows "unat (ucast w :: u8) = unat w"
proof -
  have "(ucast w :: u8) = of_nat (unat w)" by simp
  then have "unat (ucast w :: u8) = unat w mod 2 ^ 8"
    by (simp only: unat_of_nat) simp
  with assms show ?thesis by simp
qed

lemma channelSum_le: "channelSum f pxs \<le> 255 * length pxs"
proof (induction pxs)
  case Nil
  then show ?case by (simp add: channelSum_def)
next
  case (Cons px pxs)
  have "unat (f px) < 2 ^ 8" using unsigned_less [of "f px", where ?'a = nat] by simp
  with Cons show ?case by (simp add: channelSum_def)
qed

lemma accumulate_length [simp]:
  "length (fst (accumulate px s)) = length (fst s)"
  "length (snd (accumulate px s)) = length (snd s)"
  by (simp_all add: accumulate_def Let_def)

lemma fold_accumulate_length [simp]:
  "length (fst (fold accumulate rgba s)) = length (fst s)"
  "length (snd (fold accumulate rgba s)) = length (snd s)"
  by (induction rgba arbitrary: s) simp_all

lemma fold_accumulate_nth:
  assumes "i < length (fst s)" and "i < length (snd s)"
  shows "fst (fold accumulate rgba s) ! i =
           \<lparr>Color.r = Color.r (fst s ! i) + of_nat (channelSum rgba0 (clusterMembers i rgba)),
            Color.g = Color.g (fst s ! i) + of_nat (channelSum rgba1 (clusterMembers i rgba)),
            Color.b = Color.b (fst s ! i) + of_nat (channelSum rgba2 (clusterMembers i rgba))\<rparr>
       \<and> snd (fold accumulate rgba s) ! i = snd s ! i + of_nat (length (clusterMembers i rgba))"
  using assms
proof (induction rgba arbitrary: s)
  case Nil
  then show ?case by (simp add: clusterMembers_def channelSum_def)
next
  case (Cons px rgba)
  let ?s = "accumulate px s"
  have len: "i < length (fst ?s)" "i < length (snd ?s)"
    using Cons.prems by simp_all
  note IH = Cons.IH [OF len]
  show ?case
  proof (cases "unat (rgba3 px) = i")
    case True
    have "fst ?s ! i = \<lparr>Color.r = Color.r (fst s ! i) + of_nat (unat (rgba0 px)),
                         Color.g = Color.g (fst s ! i) + of_nat (unat (rgba1 px)),
                         Color.b = Color.b (fst s ! i) + of_nat (unat (rgba2 px))\<rparr>"
      and "snd ?s ! i = snd s ! i + 1"
      using Cons.prems True by (simp_all add: accumulate_def Let_def)
    with IH True show ?thesis
      by (simp add: clusterMembers_def channelSum_def add.assoc del: of_nat_unat)
  next
    case False
    then have "fst ?s ! i = fst s ! i" and "snd ?s ! i = snd s ! i"
      by (simp_all add: accumulate_def Let_def)
    with IH False show ?thesis
      by (simp add: clusterMembers_def channelSum_def)
  qed
qed

lemma sumClusters_nth:
  assumes "i < 16"
  shows "fst (sumClusters rgba) ! i =
           \<lparr>Color.r = of_nat (channelSum rgba0 (clusterMembers i rgba)),
            Color.g = of_nat (channelSum rgba1 (clusterMembers i rgba)),
            Color.b = of_nat (channelSum rgba2 (clusterMembers i rgba))\<rparr>
       \<and> snd (sumClusters rgba) ! i = of_nat (length (clusterMembers i rgba))"
  using assms fold_accumulate_nth [of i "(replicate numColors zeroColor, replicate numColors 0)" rgba]
  by (simp add: sumClusters_def numColors_def zeroColor_def)

lemma computeCentroids_nth:
  assumes "i < 16"
  shows "computeCentroids rgba ! i = average (fst (sumClusters rgba) ! i) (snd (sumClusters rgba) ! i)"
  using assms by (simp add: computeCentroids_def Let_def numColors_def del: upt_rec_numeral)

lemma computeCentroids_length [simp]: "length (computeCentroids rgba) = 16"
  by (simp add: computeCentroids_def Let_def numColors_def del: upt_rec_numeral)

lemma mean_channel:
  assumes "length pxs < 2 ^ 31" and "pxs \<noteq> []"
  shows "unat ((of_nat (channelSum f pxs) :: u64) div scast (of_nat (length pxs) :: i32))
           = channelSum f pxs div length pxs
       \<and> channelSum f pxs div length pxs \<le> 255"
proof -
  let ?S = "channelSum f pxs" and ?n = "length pxs"
  have S: "?S \<le> 255 * ?n" by (rule channelSum_le)
  have n: "0 < ?n" using assms(2) by simp
  have "255 * ?n < 255 * 2 ^ 31" using assms(1) by simp
  with S have S64: "?S < 2 ^ 64" by simp
  have n64: "?n < 2 ^ 64" using assms(1) by simp
  have "?S div ?n \<le> (255 * ?n) div ?n" by (rule div_le_mono [OF S])
  then have q: "?S div ?n \<le> 255" using n by simp
  have "(of_nat ?S :: u64) div scast (of_nat ?n :: i32) = of_nat (?S div ?n)"
    by (simp only: scast_count [OF assms(1)] div_of_nat [OF S64 n64])
  moreover have "unat (of_nat (?S div ?n) :: u64) = ?S div ?n"
    using q by (simp add: unat_of_nat)
  ultimately show ?thesis using q by simp
qed

lemma centroid_facts:
  assumes "length (clusterMembers i rgba) < 2 ^ 31"
    and "\<forall>px\<in>set rgba. unat (rgba3 px) < 16"
    and "i < 16"
  shows "unat (snd (sumClusters rgba) ! i) = length (clusterMembers i rgba)
    \<and> (snd (sumClusters rgba) ! i \<noteq> 0 \<longrightarrow>
          unat (Color.r (computeCentroids rgba ! i))
            = channelSum rgba0 (clusterMembers i rgba) div length (clusterMembers i rgba)
        \<and> unat (Color.g (computeCentroids rgba ! i))
            = channelSum rgba1 (clusterMembers i rgba) div length (clusterMembers i rgba)
        \<and> unat (Color.b (computeCentroids rgba ! i))
            = channelSum rgba2 (clusterMembers i rgba) div length (clusterMembers i rgba))
    \<and> (snd (sumClusters rgba) ! i = 0 \<longrightarrow> computeCentroids rgba ! i = zeroColor)
    \<and> unat (Color.r (computeCentroids rgba ! i)) \<le> 255
    \<and> unat (Color.g (computeCentroids rgba ! i)) \<le> 255
    \<and> unat (Color.b (computeCentroids rgba ! i)) \<le> 255
    \<and> unat (PaletteValue.r (createPalette (computeCentroids rgba) ! i))
         = unat (Color.r (computeCentroids rgba ! i))
    \<and> unat (PaletteValue.g (createPalette (computeCentroids rgba) ! i))
         = unat (Color.g (computeCentroids rgba ! i))
    \<and> unat (PaletteValue.b (createPalette (computeCentroids rgba) ! i))
         = unat (Color.b (computeCentroids rgba ! i))"
proof -
  let ?m = "clusterMembers i rgba"
  let ?c = "computeCentroids rgba ! i"
  note m = assms(1)
  note s = sumClusters_nth [OF assms(3), of rgba]
  have cnt: "unat (snd (sumClusters rgba) ! i) = length ?m"
    using s count_unat [OF m] by simp
  have c: "?c = average (fst (sumClusters rgba) ! i) (snd (sumClusters rgba) ! i)"
    by (rule computeCentroids_nth [OF assms(3)])
  have z: "snd (sumClusters rgba) ! i = 0 \<longleftrightarrow> ?m = []"
    using cnt by (metis length_0_conv unat_eq_0 unsigned_0)
  have empty: "?m = [] \<Longrightarrow> ?c = zeroColor"
    using s by (simp add: c average_def zeroColor_def channelSum_def)
  have mean: "?m \<noteq> [] \<Longrightarrow>
      unat (Color.r ?c) = channelSum rgba0 ?m div length ?m \<and> unat (Color.r ?c) \<le> 255
    \<and> unat (Color.g ?c) = channelSum rgba1 ?m div length ?m \<and> unat (Color.g ?c) \<le> 255
    \<and> unat (Color.b ?c) = channelSum rgba2 ?m div length ?m \<and> unat (Color.b ?c) \<le> 255"
    using s z mean_channel [OF m, of rgba0] mean_channel [OF m, of rgba1]
      mean_channel [OF m, of rgba2]
    by (simp add: c average_def)
  have le: "unat (Color.r ?c) \<le> 255 \<and> unat (Color.g ?c) \<le> 255 \<and> unat (Color.b ?c) \<le> 255"
    using empty mean by (cases "?m = []") (simp_all add: zeroColor_def)
  have p: "createPalette (computeCentroids rgba) ! i =
      \<lparr>PaletteValue.r = ucast (Color.r ?c), PaletteValue.g = ucast (Color.g ?c),
       PaletteValue.b = ucast (Color.b ?c)\<rparr>"
    using assms(3) by (simp add: createPalette_def numColors_def del: upt_rec_numeral)
  have nar: "unat (PaletteValue.r (createPalette (computeCentroids rgba) ! i)) = unat (Color.r ?c)
    \<and> unat (PaletteValue.g (createPalette (computeCentroids rgba) ! i)) = unat (Color.g ?c)
    \<and> unat (PaletteValue.b (createPalette (computeCentroids rgba) ! i)) = unat (Color.b ?c)"
    using le by (simp add: p narrow)
  from cnt z empty mean le nar show ?thesis by blast
qed

text \<open>
  C7. For a working copy whose fourth bytes are cluster indices below 16 and a cluster
  \<open>i\<close> of fewer than \<open>2 ^ 31\<close> members (its \<open>int\<close> counter has not
  overflowed), after the averaging step the counter of cluster \<open>i\<close> is its number
  of members; a cluster with a nonzero counter holds, per channel, the integer quotient
  of the sum of its members' channel bytes by their number; a cluster with a zero
  counter holds \<open>(0, 0, 0)\<close>; every channel is at most 255; and the bytes that
  \<open>createPalette\<close> narrows the channels to have the same values.
\<close>

theorem centroid_channels:
  assumes "length (clusterMembers i rgba) < 2 ^ 31"
    and "\<forall>px\<in>set rgba. unat (rgba3 px) < 16"
    and "i < 16"
  shows "unat (snd (sumClusters rgba) ! i) = length (clusterMembers i rgba)
    \<and> (snd (sumClusters rgba) ! i \<noteq> 0 \<longrightarrow>
          unat (Color.r (computeCentroids rgba ! i))
            = channelSum rgba0 (clusterMembers i rgba) div length (clusterMembers i rgba)
        \<and> unat (Color.g (computeCentroids rgba ! i))
            = channelSum rgba1 (clusterMembers i rgba) div length (clusterMembers i rgba)
        \<and> unat (Color.b (computeCentroids rgba ! i))
            = channelSum rgba2 (clusterMembers i rgba) div length (clusterMembers i rgba))
    \<and> (snd (sumClusters rgba) ! i = 0 \<longrightarrow> computeCentroids rgba ! i = zeroColor)
    \<and> unat (Color.r (computeCentroids rgba ! i)) \<le> 255
    \<and> unat (Color.g (computeCentroids rgba ! i)) \<le> 255
    \<and> unat (Color.b (computeCentroids rgba ! i)) \<le> 255
    \<and> unat (PaletteValue.r (createPalette (computeCentroids rgba) ! i))
         = unat (Color.r (computeCentroids rgba ! i))
    \<and> unat (PaletteValue.g (createPalette (computeCentroids rgba) ! i))
         = unat (Color.g (computeCentroids rgba ! i))
    \<and> unat (PaletteValue.b (createPalette (computeCentroids rgba) ! i))
         = unat (Color.b (computeCentroids rgba ! i))"
  using assms by (rule centroid_facts)

theorem centroid_channels_witness:
  "unat (Color.r (computeCentroids
      [\<lparr>rgba0 = 10, rgba1 = 20, rgba2 = 30, rgba3 = 3\<rparr>,
       \<lparr>rgba0 = 21, rgba1 = 20, rgba2 = 31, rgba3 = 3\<rparr>] ! 3)) = 15"
proof -
  let ?rgba = "[\<lparr>rgba0 = 10, rgba1 = 20, rgba2 = 30, rgba3 = 3\<rparr>,
                \<lparr>rgba0 = 21, rgba1 = 20, rgba2 = 31, rgba3 = 3\<rparr>]"
  have m: "clusterMembers 3 ?rgba = ?rgba" by (simp add: clusterMembers_def)
  have h1: "length (clusterMembers 3 ?rgba) < 2 ^ 31" by (simp add: m)
  have h2: "\<forall>px\<in>set ?rgba. unat (rgba3 px) < 16" by simp
  have h3: "(3 :: nat) < 16" by simp
  note t = centroid_channels [OF h1 h2 h3]
  from t have "unat (snd (sumClusters ?rgba) ! 3) = 2" by (simp add: m)
  then have "snd (sumClusters ?rgba) ! 3 \<noteq> 0" by auto
  with t have "unat (Color.r (computeCentroids ?rgba ! 3))
      = channelSum rgba0 (clusterMembers 3 ?rgba) div length (clusterMembers 3 ?rgba)"
    by blast
  then show ?thesis by (simp add: m channelSum_def flip: numeral_2_eq_2)
qed

section \<open>Reassignment\<close>

lemma nearest_fold:
  "snd (fold (nearestStep d) [1..<Suc n] (0, d ! 0)) = d ! fst (fold (nearestStep d) [1..<Suc n] (0, d ! 0))
 \<and> fst (fold (nearestStep d) [1..<Suc n] (0, d ! 0)) < Suc n
 \<and> (\<forall>j<Suc n. d ! fst (fold (nearestStep d) [1..<Suc n] (0, d ! 0)) \<le> d ! j)
 \<and> (\<forall>j<fst (fold (nearestStep d) [1..<Suc n] (0, d ! 0)).
        d ! fst (fold (nearestStep d) [1..<Suc n] (0, d ! 0)) < d ! j)"
proof (induction n)
  case 0
  then show ?case by simp
next
  case (Suc n)
  define s where "s = fold (nearestStep d) [1..<Suc n] (0, d ! 0)"
  have step: "fold (nearestStep d) [1..<Suc (Suc n)] (0, d ! 0) = nearestStep d (Suc n) s"
    by (simp add: s_def)
  note IH = Suc.IH [folded s_def]
  show ?case
  proof (cases "d ! Suc n < snd s")
    case True
    then have ns: "nearestStep d (Suc n) s = (Suc n, d ! Suc n)"
      by (simp add: nearestStep_def)
    have "\<forall>j<Suc (Suc n). d ! Suc n \<le> d ! j"
    proof (intro allI impI)
      fix j assume "j < Suc (Suc n)"
      then consider "j = Suc n" | "j < Suc n" by linarith
      then show "d ! Suc n \<le> d ! j"
      proof cases
        case 1 then show ?thesis by simp
      next
        case 2
        with IH have "d ! fst s \<le> d ! j" by blast
        moreover from True IH have "d ! Suc n < d ! fst s" by simp
        ultimately show ?thesis by simp
      qed
    qed
    moreover have "\<forall>j<Suc n. d ! Suc n < d ! j"
    proof (intro allI impI)
      fix j assume "j < Suc n"
      with IH have "d ! fst s \<le> d ! j" by blast
      moreover from True IH have "d ! Suc n < d ! fst s" by simp
      ultimately show "d ! Suc n < d ! j" by simp
    qed
    ultimately show ?thesis
      by (simp only: step ns fst_conv snd_conv) simp
  next
    case False
    then have ns: "nearestStep d (Suc n) s = s"
      by (simp add: nearestStep_def)
    have "\<forall>j<Suc (Suc n). d ! fst s \<le> d ! j"
    proof (intro allI impI)
      fix j assume "j < Suc (Suc n)"
      then consider "j = Suc n" | "j < Suc n" by linarith
      then show "d ! fst s \<le> d ! j"
      proof cases
        case 1 with False IH show ?thesis by simp
      next
        case 2 with IH show ?thesis by blast
      qed
    qed
    with IH show ?thesis
      by (simp only: step ns) auto
  qed
qed

lemma nearestCluster_least:
  "nearestCluster d < 16
 \<and> (\<forall>j<16. d ! nearestCluster d \<le> d ! j)
 \<and> (\<forall>j<nearestCluster d. d ! nearestCluster d < d ! j)"
  using nearest_fold [of d 15] by (simp add: nearestCluster_def numColors_def del: upt_rec_numeral)

lemma bestCluster_least:
  assumes "\<forall>j<16. unat (Color.r (centroids ! j)) \<le> 255 \<and> unat (Color.g (centroids ! j)) \<le> 255
             \<and> unat (Color.b (centroids ! j)) \<le> 255"
  shows "bestCluster centroids px < 16
 \<and> (\<forall>j<16. sqDistance (centroids ! bestCluster centroids px) px \<le> sqDistance (centroids ! j) px)
 \<and> (\<forall>j<bestCluster centroids px.
        sqDistance (centroids ! bestCluster centroids px) px < sqDistance (centroids ! j) px)"
proof -
  let ?d = "map (\<lambda>j. distance2 (centroids ! j) px) [0..<numColors]"
  have d: "\<And>j. j < 16 \<Longrightarrow> uint (?d ! j) = sqDistance (centroids ! j) px"
  proof -
    fix j :: nat assume j: "j < 16"
    then have "?d ! j = distance2 (centroids ! j) px"
      by (simp add: numColors_def del: upt_rec_numeral)
    moreover from assms j have "unat (Color.r (centroids ! j)) \<le> 255"
      "unat (Color.g (centroids ! j)) \<le> 255" "unat (Color.b (centroids ! j)) \<le> 255"
      by simp_all
    then have "uint (distance2 (centroids ! j) px) = sqDistance (centroids ! j) px"
      by (rule distance2_uint)
    ultimately show "uint (?d ! j) = sqDistance (centroids ! j) px" by simp
  qed
  note n = nearestCluster_least [of ?d, folded bestCluster_def]
  from n have k: "bestCluster centroids px < 16" by simp
  have "\<forall>j<16. sqDistance (centroids ! bestCluster centroids px) px \<le> sqDistance (centroids ! j) px"
  proof (intro allI impI)
    fix j :: nat assume j: "j < 16"
    with n have "?d ! bestCluster centroids px \<le> ?d ! j" by blast
    then have "uint (?d ! bestCluster centroids px) \<le> uint (?d ! j)"
      by (simp add: word_le_def)
    then show "sqDistance (centroids ! bestCluster centroids px) px \<le> sqDistance (centroids ! j) px"
      by (simp only: d [OF k] d [OF j])
  qed
  moreover have "\<forall>j<bestCluster centroids px.
      sqDistance (centroids ! bestCluster centroids px) px < sqDistance (centroids ! j) px"
  proof (intro allI impI)
    fix j :: nat assume j: "j < bestCluster centroids px"
    with k have j16: "j < 16" by simp
    from j n have "?d ! bestCluster centroids px < ?d ! j" by blast
    then have "uint (?d ! bestCluster centroids px) < uint (?d ! j)"
      by (simp add: word_less_def)
    then show "sqDistance (centroids ! bestCluster centroids px) px < sqDistance (centroids ! j) px"
      by (simp only: d [OF k] d [OF j16])
  qed
  ultimately show ?thesis using k by blast
qed

lemma assignPixels_nth:
  assumes "i < length rgba"
  shows "fst (assignPixels centroids rgba) ! i
       = (rgba ! i)\<lparr>rgba3 := of_nat (bestCluster centroids (rgba ! i))\<rparr>"
  using assms by (simp add: assignPixels_def)

lemma unat_cluster: "k < 16 \<Longrightarrow> unat (of_nat k :: u8) = k"
  by (simp add: unat_of_nat)

text \<open>
  C6. In a reassignment pass over a working copy whose fourth bytes are cluster indices
  below 16 and whose clusters have fewer than \<open>2 ^ 31\<close> members each (no
  \<open>int\<close> counter has overflowed), with the centroids just averaged from it,
  the index \<open>k\<close> written to the fourth byte of pixel \<open>i\<close> is below 16, its centroid is
  at least as near to the pixel (in squared Euclidean distance) as every other centroid,
  and every centroid with a smaller index is strictly farther: \<open>k\<close> is the smallest
  index of a nearest centroid.
\<close>

theorem assignPixels_nearest:
  assumes "\<forall>j<16. length (clusterMembers j rgba) < 2 ^ 31"
    and "\<forall>px\<in>set rgba. unat (rgba3 px) < 16"
    and "i < length rgba"
    and "centroids = computeCentroids rgba"
    and "k = unat (rgba3 (fst (assignPixels centroids rgba) ! i))"
  shows "k < 16
    \<and> (\<forall>j<16. sqDistance (centroids ! k) (rgba ! i) \<le> sqDistance (centroids ! j) (rgba ! i))
    \<and> (\<forall>j<k. sqDistance (centroids ! k) (rgba ! i) < sqDistance (centroids ! j) (rgba ! i))"
proof -
  have bound: "\<forall>j<16. unat (Color.r (centroids ! j)) \<le> 255 \<and> unat (Color.g (centroids ! j)) \<le> 255
             \<and> unat (Color.b (centroids ! j)) \<le> 255"
    using centroid_facts [OF _ assms(2)] assms(1) by (simp add: assms(4))
  note b = bestCluster_least [OF bound, of "rgba ! i"]
  have "k = bestCluster centroids (rgba ! i)"
    using b by (simp add: assms(5) assignPixels_nth [OF assms(3)] unat_cluster)
  with b show ?thesis by simp
qed

theorem assignPixels_nearest_witness:
  "unat (rgba3 (fst (assignPixels
      (computeCentroids [\<lparr>rgba0 = 10, rgba1 = 20, rgba2 = 30, rgba3 = 3\<rparr>,
                         \<lparr>rgba0 = 21, rgba1 = 20, rgba2 = 31, rgba3 = 3\<rparr>])
      [\<lparr>rgba0 = 10, rgba1 = 20, rgba2 = 30, rgba3 = 3\<rparr>,
       \<lparr>rgba0 = 21, rgba1 = 20, rgba2 = 31, rgba3 = 3\<rparr>]) ! 1)) < 16"
proof -
  let ?rgba = "[\<lparr>rgba0 = 10, rgba1 = 20, rgba2 = 30, rgba3 = 3\<rparr>,
                \<lparr>rgba0 = 21, rgba1 = 20, rgba2 = 31, rgba3 = 3\<rparr>]"
  have h1: "\<forall>j<16. length (clusterMembers j ?rgba) < 2 ^ 31"
  proof (intro allI impI)
    fix j :: nat
    have "length (clusterMembers j ?rgba) \<le> length ?rgba"
      unfolding clusterMembers_def by (rule length_filter_le)
    also have "\<dots> < 2 ^ 31" by simp
    finally show "length (clusterMembers j ?rgba) < 2 ^ 31" .
  qed
  have h2: "\<forall>px\<in>set ?rgba. unat (rgba3 px) < 16" by simp
  have h3: "1 < length ?rgba" by simp
  from assignPixels_nearest [OF h1 h2 h3 refl refl] show ?thesis by blast
qed

section \<open>The working copy in every pass\<close>

text \<open>
  When \<open>posterize\<close> is called with fewer than \<open>2 ^ 31\<close> pixels, the working copy
  at the start of every pass has its fourth bytes below 16 and no cluster of
  \<open>2 ^ 31\<close> or more members: the hypotheses under which the centroids and the
  reassignment are characterised hold in every Lloyd iteration.
\<close>

lemma seedClusters_length [simp]: "length (seedClusters draws rgbaIn numPixels) = numPixels"
  by (simp add: seedClusters_def)

lemma draw_less: "unat (ucast (d :: 4 word) :: u8) < 16"
proof -
  have "unat d < 2 ^ 4" using unsigned_less [of d, where ?'a = nat] by simp
  moreover have "(ucast d :: u8) = of_nat (unat d)" by simp
  then have "unat (ucast d :: u8) = unat d mod 2 ^ 8"
    by (simp only: unat_of_nat) simp
  ultimately show ?thesis by simp
qed

lemma seedClusters_index:
  "\<forall>px\<in>set (seedClusters draws rgbaIn numPixels). unat (rgba3 px) < 16"
  by (auto simp add: seedClusters_def draw_less)

lemma lloydIteration_length [simp]: "length (fst (lloydIteration rgba)) = length rgba"
  by (simp add: lloydIteration_def assignPixels_def)

lemma lloydIteration_index:
  "\<forall>px\<in>set (fst (lloydIteration rgba)). unat (rgba3 px) < 16"
proof -
  have "\<And>centroids px. bestCluster centroids px < 16"
    using nearestCluster_least by (simp add: bestCluster_def)
  then show ?thesis
    by (auto simp add: lloydIteration_def assignPixels_def unat_cluster)
qed

lemma bufferAfter_length [simp]: "length (bufferAfter m rgba) = length rgba"
  by (induction m) simp_all

lemma bufferAfter_index:
  assumes "\<forall>px\<in>set rgba. unat (rgba3 px) < 16"
  shows "\<forall>px\<in>set (bufferAfter m rgba). unat (rgba3 px) < 16"
  using assms by (cases m) (simp_all add: lloydIteration_index)

lemma clusterMembers_le: "length (clusterMembers j rgba) \<le> length rgba"
  by (simp add: clusterMembers_def)

lemma working_copy_invariant:
  assumes "numPixels < 2 ^ 31"
  shows "(\<forall>j. length (clusterMembers j (bufferAfter m (seedClusters draws rgbaIn numPixels))) < 2 ^ 31)
       \<and> (\<forall>px\<in>set (bufferAfter m (seedClusters draws rgbaIn numPixels)). unat (rgba3 px) < 16)"
proof
  show "\<forall>j. length (clusterMembers j (bufferAfter m (seedClusters draws rgbaIn numPixels))) < 2 ^ 31"
  proof
    fix j
    have "length (clusterMembers j (bufferAfter m (seedClusters draws rgbaIn numPixels))) \<le> numPixels"
      using clusterMembers_le [of j "bufferAfter m (seedClusters draws rgbaIn numPixels)"] by simp
    with assms show "length (clusterMembers j (bufferAfter m (seedClusters draws rgbaIn numPixels))) < 2 ^ 31"
      by simp
  qed
  show "\<forall>px\<in>set (bufferAfter m (seedClusters draws rgbaIn numPixels)). unat (rgba3 px) < 16"
    by (rule bufferAfter_index [OF seedClusters_index])
qed

section \<open>The remap of the packed image in posterize\<close>

text \<open>
  The normalizer is called with \<open>numBytes = numPixels div 2\<close>; no byte of the packed
  image from that index on is rewritten, whatever the darkest colour is.
\<close>

lemma remapPixels_length [simp]: "length (remapPixels lut image4bit numBytes) = length image4bit"
  by (induction numBytes) (simp_all add: remapPixels_def)

lemma remapPixels_untouched:
  "numBytes \<le> j \<Longrightarrow> remapPixels lut image4bit numBytes ! j = image4bit ! j"
  by (induction numBytes) (simp_all add: remapPixels_def)

lemma normalizer_skips_bytes:
  "numBytes \<le> j \<Longrightarrow>
   snd (setDarkestColorToBlackAndIndex0 lum palette image4bit numBytes) ! j = image4bit ! j"
  by (simp add: setDarkestColorToBlackAndIndex0_def Let_def remapPixels_untouched)

subsection \<open>One white pixel, first drawn into cluster 0\<close>

lemma white_centroids:
  "computeCentroids [\<lparr>rgba0 = 255, rgba1 = 255, rgba2 = 255, rgba3 = 0\<rparr>]
     = \<lparr>Color.r = 255, Color.g = 255, Color.b = 255\<rparr> # replicate 15 zeroColor"
  by code_simp

lemma white_iteration:
  "lloydIteration [\<lparr>rgba0 = 255, rgba1 = 255, rgba2 = 255, rgba3 = 0\<rparr>]
     = ([\<lparr>rgba0 = 255, rgba1 = 255, rgba2 = 255, rgba3 = 0\<rparr>], False)"
proof -
  let ?px = "\<lparr>rgba0 = 255, rgba1 = 255, rgba2 = 255, rgba3 = 0\<rparr>"
  let ?cs = "\<lparr>Color.r = 255, Color.g = 255, Color.b = 255\<rparr> # replicate 15 zeroColor"
  have "bestCluster ?cs ?px = 0"
    by (rule bestCluster_zero) (simp add: distance2_def)
  then show ?thesis
    by (simp add: lloydIteration_def white_centroids assignPixels_def)
qed

lemma white_kmeans:
  "kmeans [\<lparr>rgba0 = 255, rgba1 = 255, rgba2 = 255, rgba3 = 0\<rparr>] 0
     = (\<lparr>Color.r = 255, Color.g = 255, Color.b = 255\<rparr> # replicate 15 zeroColor,
        [\<lparr>rgba0 = 255, rgba1 = 255, rgba2 = 255, rgba3 = 0\<rparr>], False, 1)"
  by (subst kmeans_unfold) (simp add: white_iteration white_centroids)

lemma white_seed:
  "seedClusters (\<lambda>i. 0) [255, 255, 255, 0] 1
     = [\<lparr>rgba0 = 255, rgba1 = 255, rgba2 = 255, rgba3 = 0\<rparr>]"
  by code_simp

lemma white_palette:
  "createPalette (\<lparr>Color.r = 255, Color.g = 255, Color.b = 255\<rparr> # replicate 15 zeroColor)
     = \<lparr>PaletteValue.r = 255, PaletteValue.g = 255, PaletteValue.b = 255\<rparr> # replicate 15 black"
  by code_simp

lemma white_packed:
  "packPixels [\<lparr>rgba0 = 255, rgba1 = 255, rgba2 = 255, rgba3 = 0\<rparr>] 1 [0] = [0]"
  by code_simp

lemma white_darkest:
  "findDarkest luminance
     (\<lparr>PaletteValue.r = 255, PaletteValue.g = 255, PaletteValue.b = 255\<rparr> # replicate 15 black) = 1"
  by code_simp

lemma white_normalized:
  "setDarkestColorToBlackAndIndex0 luminance
     (\<lparr>PaletteValue.r = 255, PaletteValue.g = 255, PaletteValue.b = 255\<rparr> # replicate 15 black)
     [0] 0
   = (black # \<lparr>PaletteValue.r = 255, PaletteValue.g = 255, PaletteValue.b = 255\<rparr>
        # replicate 14 black, [0])"
  by code_simp

lemma white_copied:
  "copyOutPalette
     (black # \<lparr>PaletteValue.r = 255, PaletteValue.g = 255, PaletteValue.b = 255\<rparr>
        # replicate 14 black) (replicate 48 0)
   = [0, 0, 0, 255, 255, 255] @ replicate 42 0"
  by code_simp

text \<open>
  C2. \<open>posterize\<close> is documented to make colour 0 the darkest colour and to remap the
  pixels accordingly, and the packing loop writes the nibble of every pixel
  \<open>i < numPixels\<close>. For one white pixel drawn into cluster 0 the palette before the
  normalizer is white at index 0 and black elsewhere, the darkest colour is
  \<open>darkestColor = 1\<close>, and the nibble of pixel 0 is 0, so the swap of 0 and 1 should
  turn it into 1. The remap loop runs over \<open>1 div 2 = 0\<close> bytes: \<open>posterize\<close>
  returns the nibble of pixel 0 still 0, with the palette swapped, so the white pixel now
  selects the black entry 0.
\<close>

theorem posterize_last_pixel_not_remapped:
  "findDarkest luminance
     (createPalette (fst (kmeans (seedClusters (\<lambda>i. 0) [255, 255, 255, 0] 1) 0))) = 1
   \<and> nibbleAt (packPixels (fst (snd (kmeans (seedClusters (\<lambda>i. 0) [255, 255, 255, 0] 1) 0))) 1 [0]) 0 = 0
   \<and> swapNibble 1 0 = 1
   \<and> posterize luminance (\<lambda>i. 0) [0] (replicate 48 0) [255, 255, 255, 0] 1
       = ([0], [0, 0, 0, 255, 255, 255] @ replicate 42 0)
   \<and> nibbleAt (fst (posterize luminance (\<lambda>i. 0) [0] (replicate 48 0) [255, 255, 255, 0] 1)) 0 = 0"
proof -
  have p: "posterize luminance (\<lambda>i. 0) [0] (replicate 48 0) [255, 255, 255, 0] 1
       = ([0], [0, 0, 0, 255, 255, 255] @ replicate 42 0)"
    unfolding posterize_def Let_def white_seed white_kmeans fst_conv snd_conv
      white_palette white_packed
    by (simp add: white_normalized white_copied)
  have n: "nibbleAt [0] 0 = 0" by (simp add: nibbleAt_def)
  show ?thesis
    unfolding p white_seed white_kmeans fst_conv snd_conv white_palette white_packed
      white_darkest
    by (simp add: n swapNibble_def)
qed

subsection \<open>A white and a red pixel, first drawn into clusters 0 and 5\<close>

text \<open>
  With an even pixel count every byte is passed through the table, but the byte
  \<open>0x05\<close> pairs the nibble 0 with a nibble that is neither 0 nor
  \<open>darkestColor = 1\<close>, and the table maps it to itself: the white pixel keeps the
  nibble 0 while white has moved to palette index 1.
\<close>

lemma upt_0_16: "[0..<16] = [0, 1, 2, 3, 4, 5, 6, 7, 8, 9, 10, 11, 12, 13, 14, 15::nat]"
  by code_simp

lemma upt_1_16: "[Suc 0..<16] = [1, 2, 3, 4, 5, 6, 7, 8, 9, 10, 11, 12, 13, 14, 15::nat]"
  by code_simp

lemma red_best:
  "bestCluster [\<lparr>Color.r = 255, Color.g = 255, Color.b = 255\<rparr>, zeroColor, zeroColor, zeroColor,
        zeroColor, \<lparr>Color.r = 255, Color.g = 0, Color.b = 0\<rparr>, zeroColor, zeroColor,
        zeroColor, zeroColor, zeroColor, zeroColor, zeroColor, zeroColor, zeroColor, zeroColor]
     \<lparr>rgba0 = 255, rgba1 = 0, rgba2 = 0, rgba3 = 5\<rparr> = 5"
  by (simp add: bestCluster_def nearestCluster_def nearestStep_def distance2_def numColors_def
      zeroColor_def upt_0_16 upt_1_16 Let_def del: upt_rec_numeral)

lemma two_centroids:
  "computeCentroids [\<lparr>rgba0 = 255, rgba1 = 255, rgba2 = 255, rgba3 = 0\<rparr>,
                     \<lparr>rgba0 = 255, rgba1 = 0, rgba2 = 0, rgba3 = 5\<rparr>]
     = [\<lparr>Color.r = 255, Color.g = 255, Color.b = 255\<rparr>, zeroColor, zeroColor, zeroColor,
        zeroColor, \<lparr>Color.r = 255, Color.g = 0, Color.b = 0\<rparr>, zeroColor, zeroColor,
        zeroColor, zeroColor, zeroColor, zeroColor, zeroColor, zeroColor, zeroColor, zeroColor]"
  by code_simp

lemma white_best:
  "bestCluster [\<lparr>Color.r = 255, Color.g = 255, Color.b = 255\<rparr>, zeroColor, zeroColor, zeroColor,
        zeroColor, \<lparr>Color.r = 255, Color.g = 0, Color.b = 0\<rparr>, zeroColor, zeroColor,
        zeroColor, zeroColor, zeroColor, zeroColor, zeroColor, zeroColor, zeroColor, zeroColor]
     \<lparr>rgba0 = 255, rgba1 = 255, rgba2 = 255, rgba3 = 0\<rparr> = 0"
  by (simp add: bestCluster_def nearestCluster_def nearestStep_def distance2_def numColors_def
      zeroColor_def upt_0_16 upt_1_16 Let_def del: upt_rec_numeral)

lemma two_iteration:
  "lloydIteration [\<lparr>rgba0 = 255, rgba1 = 255, rgba2 = 255, rgba3 = 0\<rparr>,
                   \<lparr>rgba0 = 255, rgba1 = 0, rgba2 = 0, rgba3 = 5\<rparr>]
     = ([\<lparr>rgba0 = 255, rgba1 = 255, rgba2 = 255, rgba3 = 0\<rparr>,
         \<lparr>rgba0 = 255, rgba1 = 0, rgba2 = 0, rgba3 = 5\<rparr>], False)"
  by (simp add: lloydIteration_def two_centroids assignPixels_def white_best red_best)

lemma two_kmeans:
  "kmeans [\<lparr>rgba0 = 255, rgba1 = 255, rgba2 = 255, rgba3 = 0\<rparr>,
           \<lparr>rgba0 = 255, rgba1 = 0, rgba2 = 0, rgba3 = 5\<rparr>] 0
     = ([\<lparr>Color.r = 255, Color.g = 255, Color.b = 255\<rparr>, zeroColor, zeroColor, zeroColor,
         zeroColor, \<lparr>Color.r = 255, Color.g = 0, Color.b = 0\<rparr>, zeroColor, zeroColor,
         zeroColor, zeroColor, zeroColor, zeroColor, zeroColor, zeroColor, zeroColor, zeroColor],
        [\<lparr>rgba0 = 255, rgba1 = 255, rgba2 = 255, rgba3 = 0\<rparr>,
         \<lparr>rgba0 = 255, rgba1 = 0, rgba2 = 0, rgba3 = 5\<rparr>], False, 1)"
  by (subst kmeans_unfold) (simp add: two_iteration two_centroids)

lemma two_seed:
  "seedClusters (\<lambda>i. if i = 0 then 0 else 5) [255, 255, 255, 0, 255, 0, 0, 0] 2
     = [\<lparr>rgba0 = 255, rgba1 = 255, rgba2 = 255, rgba3 = 0\<rparr>,
        \<lparr>rgba0 = 255, rgba1 = 0, rgba2 = 0, rgba3 = 5\<rparr>]"
  by code_simp

lemma two_palette:
  "createPalette [\<lparr>Color.r = 255, Color.g = 255, Color.b = 255\<rparr>, zeroColor, zeroColor, zeroColor,
         zeroColor, \<lparr>Color.r = 255, Color.g = 0, Color.b = 0\<rparr>, zeroColor, zeroColor,
         zeroColor, zeroColor, zeroColor, zeroColor, zeroColor, zeroColor, zeroColor, zeroColor]
     = [\<lparr>PaletteValue.r = 255, PaletteValue.g = 255, PaletteValue.b = 255\<rparr>, black, black,
        black, black, \<lparr>PaletteValue.r = 255, PaletteValue.g = 0, PaletteValue.b = 0\<rparr>, black,
        black, black, black, black, black, black, black, black, black]"
  by code_simp

lemma two_packed:
  "packPixels [\<lparr>rgba0 = 255, rgba1 = 255, rgba2 = 255, rgba3 = 0\<rparr>,
               \<lparr>rgba0 = 255, rgba1 = 0, rgba2 = 0, rgba3 = 5\<rparr>] 2 [0] = [0x05]"
  by code_simp

lemma two_darkest:
  "findDarkest luminance
     [\<lparr>PaletteValue.r = 255, PaletteValue.g = 255, PaletteValue.b = 255\<rparr>, black, black,
      black, black, \<lparr>PaletteValue.r = 255, PaletteValue.g = 0, PaletteValue.b = 0\<rparr>, black,
      black, black, black, black, black, black, black, black, black] = 1"
  by code_simp

lemma two_normalized:
  "setDarkestColorToBlackAndIndex0 luminance
     [\<lparr>PaletteValue.r = 255, PaletteValue.g = 255, PaletteValue.b = 255\<rparr>, black, black,
      black, black, \<lparr>PaletteValue.r = 255, PaletteValue.g = 0, PaletteValue.b = 0\<rparr>, black,
      black, black, black, black, black, black, black, black, black] [0x05] 1
   = ([black, \<lparr>PaletteValue.r = 255, PaletteValue.g = 255, PaletteValue.b = 255\<rparr>, black,
       black, black, \<lparr>PaletteValue.r = 255, PaletteValue.g = 0, PaletteValue.b = 0\<rparr>, black,
       black, black, black, black, black, black, black, black, black], [0x05])"
  by code_simp

lemma two_copied:
  "copyOutPalette
     [black, \<lparr>PaletteValue.r = 255, PaletteValue.g = 255, PaletteValue.b = 255\<rparr>, black,
      black, black, \<lparr>PaletteValue.r = 255, PaletteValue.g = 0, PaletteValue.b = 0\<rparr>, black,
      black, black, black, black, black, black, black, black, black] (replicate 48 0)
   = [0, 0, 0, 255, 255, 255, 0, 0, 0, 0, 0, 0, 0, 0, 0, 255, 0, 0] @ replicate 30 0"
  by code_simp

lemma posterize_mixed_byte_not_remapped:
  "posterize luminance (\<lambda>i. if i = 0 then 0 else 5) [0] (replicate 48 0)
     [255, 255, 255, 0, 255, 0, 0, 0] 2
   = ([0x05], [0, 0, 0, 255, 255, 255, 0, 0, 0, 0, 0, 0, 0, 0, 0, 255, 0, 0] @ replicate 30 0)"
proof -
  have d: "(2::nat) div 2 = 1" by simp
  show ?thesis
    unfolding posterize_def Let_def two_seed two_kmeans fst_conv snd_conv two_palette
      two_packed d two_normalized two_copied
    by simp
qed

end
